theory Spec2Isabelle
  imports Main
begin

section \<open>Python lists, indexing and list comprehensions\<close>

text \<open>
  The module \<^verbatim>\<open>cvnn_complexity.py\<close> consists of six functions over Python integers
  and lists of integers. Python integers are unbounded, so they are \<^typ>\<open>int\<close>. The only
  exception the bodies can raise on integer lists is \<^verbatim>\<open>IndexError\<close>, from a subscript
  that is out of range.
\<close>

datatype py_error = IndexError

text \<open>Sequencing: the first exception raised ends the evaluation.\<close>

definition and_then :: "py_error + 'a \<Rightarrow> ('a \<Rightarrow> py_error + 'b) \<Rightarrow> py_error + 'b" where
  "and_then r k = (case r of Inl e \<Rightarrow> Inl e | Inr v \<Rightarrow> k v)"

text \<open>\<^verbatim>\<open>len(xs)\<close> is a Python integer.\<close>

definition len :: "int list \<Rightarrow> int" where
  "len xs = int (length xs)"

text \<open>
  \<^verbatim>\<open>xs[i]\<close>: a negative subscript counts from the end, and a subscript outside
  \<^verbatim>\<open>-len(xs) .. len(xs)-1\<close> raises \<^verbatim>\<open>IndexError\<close>.
\<close>

definition getitem :: "int list \<Rightarrow> int \<Rightarrow> py_error + int" where
  "getitem xs i =
     (let j = (if i < 0 then len xs + i else i)
      in if 0 \<le> j \<and> j < len xs then Inr (xs ! nat j) else Inl IndexError)"

text \<open>\<^verbatim>\<open>range(a, b)\<close> enumerates \<^verbatim>\<open>a, a+1, ..., b-1\<close> and is empty when \<^verbatim>\<open>b <= a\<close>.\<close>

definition py_range :: "int \<Rightarrow> int \<Rightarrow> int list" where
  "py_range a b = [a..b - 1]"

text \<open>
  \<^verbatim>\<open>[f(l) for l in ls]\<close>: the elements are computed from left to right, and the first
  exception ends the comprehension.
\<close>

fun comprehension :: "(int \<Rightarrow> py_error + int) \<Rightarrow> int list \<Rightarrow> py_error + int list" where
  "comprehension f [] = Inr []"
| "comprehension f (l # ls) =
     (case f l of
        Inl e \<Rightarrow> Inl e
      | Inr v \<Rightarrow> (case comprehension f ls of Inl e \<Rightarrow> Inl e | Inr vs \<Rightarrow> Inr (v # vs)))"

section \<open>The six cost functions\<close>

text \<open>
  \<^verbatim>\<open>
  t = 4*sum([I[l]*(2*I[l-1]+I[l+1]+2) for l in range(1,len(I)-1)]) + 8*I[-1]*(I[-2]+1)
  i = 4*sum([I[l]*I[l-1] for l in range(1,len(I))])
  return t, i
  \<close>
\<close>

definition cvfnn_complexity :: "int list \<Rightarrow> py_error + int \<times> int" where
  "cvfnn_complexity I =
     and_then (comprehension
        (\<lambda>l. and_then (getitem I l) (\<lambda>a.
              and_then (getitem I (l - 1)) (\<lambda>b.
              and_then (getitem I (l + 1)) (\<lambda>c.
              Inr (a * (2 * b + c + 2))))))
        (py_range 1 (len I - 1))) (\<lambda>ts.
     and_then (getitem I (- 1)) (\<lambda>y.
     and_then (getitem I (- 2)) (\<lambda>z.
     and_then (comprehension
        (\<lambda>l. and_then (getitem I l) (\<lambda>a.
              and_then (getitem I (l - 1)) (\<lambda>b.
              Inr (a * b))))
        (py_range 1 (len I))) (\<lambda>is.
     Inr (4 * sum_list ts + 8 * y * (z + 1), 4 * sum_list is)))))"

text \<open>
  \<^verbatim>\<open>
  t = 4*sum([I[l]*(2*I[l-1]+I[l+1]+2) for l in range(1,len(I)-1)]) + 2*I[-1]*(4*I[-2]+3)
  i = 4*sum([I[l]*I[l-1] for l in range(1,len(I))])
  return t, i
  \<close>
\<close>

definition scfnn_complexity :: "int list \<Rightarrow> py_error + int \<times> int" where
  "scfnn_complexity I =
     and_then (comprehension
        (\<lambda>l. and_then (getitem I l) (\<lambda>a.
              and_then (getitem I (l - 1)) (\<lambda>b.
              and_then (getitem I (l + 1)) (\<lambda>c.
              Inr (a * (2 * b + c + 2))))))
        (py_range 1 (len I - 1))) (\<lambda>ts.
     and_then (getitem I (- 1)) (\<lambda>y.
     and_then (getitem I (- 2)) (\<lambda>z.
     and_then (comprehension
        (\<lambda>l. and_then (getitem I l) (\<lambda>a.
              and_then (getitem I (l - 1)) (\<lambda>b.
              Inr (a * b))))
        (py_range 1 (len I))) (\<lambda>is.
     Inr (4 * sum_list ts + 2 * y * (4 * z + 3), 4 * sum_list is)))))"

text \<open>
  \<^verbatim>\<open>
  t = 4*sum([I[l]*(2*I[l-1]+I[l+1]+4) for l in range(1,len(I)-1)]) + 4*I[-1]*(2*I[-2]+3)
  i = 4*sum([I[l]*(I[l-1]+1) for l in range(1,len(I))])
  return t, i
  \<close>
\<close>

definition mlmvn_complexity :: "int list \<Rightarrow> py_error + int \<times> int" where
  "mlmvn_complexity I =
     and_then (comprehension
        (\<lambda>l. and_then (getitem I l) (\<lambda>a.
              and_then (getitem I (l - 1)) (\<lambda>b.
              and_then (getitem I (l + 1)) (\<lambda>c.
              Inr (a * (2 * b + c + 4))))))
        (py_range 1 (len I - 1))) (\<lambda>ts.
     and_then (getitem I (- 1)) (\<lambda>y.
     and_then (getitem I (- 2)) (\<lambda>z.
     and_then (comprehension
        (\<lambda>l. and_then (getitem I l) (\<lambda>a.
              and_then (getitem I (l - 1)) (\<lambda>b.
              Inr (a * (b + 1)))))
        (py_range 1 (len I))) (\<lambda>is.
     Inr (4 * sum_list ts + 4 * y * (2 * z + 3), 4 * sum_list is)))))"

text \<open>
  \<^verbatim>\<open>
  t = neurons*(4*inp+6*out+5)+4*out
  i = neurons*(2*inp+2*out+1)
  return t, i
  \<close>
  Nothing in the body can raise; the result is still typed like the others.
\<close>

definition crbf_complexity :: "int \<Rightarrow> int \<Rightarrow> int \<Rightarrow> py_error + int \<times> int" where
  "crbf_complexity inp neurons out =
     Inr (neurons * (4 * inp + 6 * out + 5) + 4 * out, neurons * (2 * inp + 2 * out + 1))"

text \<open>
  \<^verbatim>\<open>
  t = 12*neurons*(inp+out+1)+4*out
  i = 4*neurons*(inp+out)
  return t, i
  \<close>
\<close>

definition fcrbf_complexity :: "int \<Rightarrow> int \<Rightarrow> int \<Rightarrow> py_error + int \<times> int" where
  "fcrbf_complexity inp neurons out =
     Inr (12 * neurons * (inp + out + 1) + 4 * out, 4 * neurons * (inp + out))"

text \<open>
  The body of \<^verbatim>\<open>ptrbf_complexity\<close> after its first statement, over the list \<open>I\<close>
  that the local name is then bound to (the parameter \<^verbatim>\<open>O\<close> is written \<open>Os\<close>):
  \<^verbatim>\<open>
  t = 4*sum([I[l]*(O[l-1]+3*O[l]+3) for l in range(1,len(I))])
        + 4*sum([O[l]*(I[l+1]+1) for l in range(1,len(I)-1)]) + 4*O[-1]
  i = 2*sum([I[l]*(O[l-1]+2*O[l]+1) for l in range(1,len(I))])
  return t, i
  \<close>
\<close>

definition ptrbf_body :: "int list \<Rightarrow> int list \<Rightarrow> py_error + int \<times> int" where
  "ptrbf_body I Os =
     and_then (comprehension
        (\<lambda>l. and_then (getitem I l) (\<lambda>a.
              and_then (getitem Os (l - 1)) (\<lambda>b.
              and_then (getitem Os l) (\<lambda>c.
              Inr (a * (b + 3 * c + 3))))))
        (py_range 1 (len I))) (\<lambda>ts.
     and_then (comprehension
        (\<lambda>l. and_then (getitem Os l) (\<lambda>a.
              and_then (getitem I (l + 1)) (\<lambda>b.
              Inr (a * (b + 1)))))
        (py_range 1 (len I - 1))) (\<lambda>us.
     and_then (getitem Os (- 1)) (\<lambda>y.
     and_then (comprehension
        (\<lambda>l. and_then (getitem I l) (\<lambda>a.
              and_then (getitem Os (l - 1)) (\<lambda>b.
              and_then (getitem Os l) (\<lambda>c.
              Inr (a * (b + 2 * c + 1))))))
        (py_range 1 (len I))) (\<lambda>is.
     Inr (4 * sum_list ts + 4 * sum_list us + 4 * y, 2 * sum_list is)))))"

text \<open>\<^verbatim>\<open>I = [0] + I\<close>, then the body.\<close>

definition ptrbf_complexity :: "int list \<Rightarrow> int list \<Rightarrow> py_error + int \<times> int" where
  "ptrbf_complexity I Os = ptrbf_body ([0] @ I) Os"

section \<open>The call of \<^verbatim>\<open>ptrbf_complexity\<close> on a store of list objects\<close>

text \<open>
  Python passes lists by reference, and a list object can be changed in place. To say what
  a call does to the caller's lists, the list objects live in a store: a reference is the
  position of an object in it, and a new object is put at the end, so that its reference
  is fresh.
\<close>

type_synonym ref = nat
type_synonym store = "int list list"

definition alloc :: "store \<Rightarrow> int list \<Rightarrow> ref \<times> store" where
  "alloc s xs = (length s, s @ [xs])"

text \<open>\<^verbatim>\<open>p + q\<close> on lists builds a new list object and leaves both operands alone.\<close>

definition list_add :: "store \<Rightarrow> ref \<Rightarrow> ref \<Rightarrow> ref \<times> store" where
  "list_add s p q = alloc s (s ! p @ s ! q)"

text \<open>
  \<^verbatim>\<open>I = [0] + I\<close> evaluates the display \<^verbatim>\<open>[0]\<close> to a new object, adds the caller's
  list to it, and binds the local name \<open>I\<close> to the result (\<open>I'\<close> below); the rest of the
  body only reads, through \<open>I'\<close> and \<open>Os\<close>. The function returns its result and the
  store it leaves behind.
\<close>

definition ptrbf_complexity_st ::
    "store \<Rightarrow> ref \<Rightarrow> ref \<Rightarrow> (py_error + int \<times> int) \<times> store" where
  "ptrbf_complexity_st s I Os =
     (case alloc s [0] of (z, s1) \<Rightarrow>
      case list_add s1 z I of (I', s2) \<Rightarrow>
        (ptrbf_body (s2 ! I') (s2 ! Os), s2))"

section \<open>Vocabulary for the properties\<close>

text \<open>A call returns a pair of non-negative costs (and does not raise).\<close>

definition returns_nonneg :: "py_error + int \<times> int \<Rightarrow> bool" where
  "returns_nonneg r = (case r of Inl e \<Rightarrow> False | Inr (t, i) \<Rightarrow> 0 \<le> t \<and> 0 \<le> i)"

text \<open>
  Two calls both return, and neither cost of the first exceeds the corresponding cost of
  the second.
\<close>

definition returns_le :: "py_error + int \<times> int \<Rightarrow> py_error + int \<times> int \<Rightarrow> bool" where
  "returns_le r r' =
     (case r of
        Inl e \<Rightarrow> False
      | Inr (t, i) \<Rightarrow> (case r' of Inl e \<Rightarrow> False | Inr (t', i') \<Rightarrow> t \<le> t' \<and> i \<le> i'))"

section \<open>Subscripts, ranges and comprehensions\<close>

lemma and_then_Inr [simp]: "and_then (Inr v) k = k v"
  by (simp add: and_then_def)

lemma and_then_Inl [simp]: "and_then (Inl e) k = Inl e"
  by (simp add: and_then_def)

lemma returns_nonneg_Inr [simp]: "returns_nonneg (Inr (t, i)) \<longleftrightarrow> 0 \<le> t \<and> 0 \<le> i"
  by (simp add: returns_nonneg_def)

lemma returns_le_Inr [simp]: "returns_le (Inr (t, i)) (Inr (t', i')) \<longleftrightarrow> t \<le> t' \<and> i \<le> i'"
  by (simp add: returns_le_def)

text \<open>A subscript within the list reads the element; one past the end raises.\<close>

lemma getitem_nat: "n < length xs \<Longrightarrow> getitem xs (int n) = Inr (xs ! n)"
  by (simp add: getitem_def len_def)

lemma getitem_pred: "0 < n \<Longrightarrow> n \<le> length xs \<Longrightarrow> getitem xs (int n - 1) = Inr (xs ! (n - 1))"
  using getitem_nat [of "n - 1" xs] by (simp add: of_nat_diff)

lemma getitem_succ: "Suc n < length xs \<Longrightarrow> getitem xs (int n + 1) = Inr (xs ! (n + 1))"
  using getitem_nat [of "n + 1" xs] by (simp add: add.commute)

lemma getitem_out: "length xs \<le> n \<Longrightarrow> getitem xs (int n) = Inl IndexError"
  by (simp add: getitem_def len_def)

lemma getitem_minus1: "xs \<noteq> [] \<Longrightarrow> getitem xs (- 1) = Inr (last xs)"
  by (cases xs rule: rev_cases) (simp_all add: getitem_def len_def)

lemma getitem_minus2: "2 \<le> length xs \<Longrightarrow> getitem xs (- 2) = Inr (xs ! (length xs - 2))"
  by (simp add: getitem_def len_def nat_diff_distrib' of_nat_diff)

lemma last_nth2: "2 \<le> length xs \<Longrightarrow> last xs = xs ! (length xs - 1)"
  by (cases xs) (simp_all add: last_conv_nth)

text \<open>The two ranges of the bodies, as lists of naturals.\<close>

lemma upto_map_int: "[1..int n - 1] = map int [1..<n]"
proof (induction n)
  case 0
  show ?case by simp
next
  case (Suc n)
  show ?case
  proof (cases "n = 0")
    case True
    then show ?thesis by simp
  next
    case False
    then have "[1..int (Suc n) - 1] = [1..int n - 1] @ [int n]"
      using upto_rec2 [of 1 "int n"] by simp
    with Suc False show ?thesis by simp
  qed
qed

lemma py_range_len: "py_range 1 (len xs) = map int [1..<length xs]"
  by (simp add: py_range_def len_def upto_map_int)

lemma py_range_len1: "py_range 1 (len xs - 1) = map int [1..<length xs - 1]"
proof (cases xs)
  case Nil
  then show ?thesis by (simp add: py_range_def len_def)
next
  case (Cons x ys)
  then show ?thesis using upto_map_int [of "length ys"] by (simp add: py_range_def len_def)
qed

text \<open>A comprehension none of whose elements raises is a map; one raising element ends it.\<close>

lemma comprehension_nat:
  assumes "\<And>l. m \<le> l \<Longrightarrow> l < n \<Longrightarrow> f (int l) = Inr (g l)"
  shows "comprehension f (map int [m..<n]) = Inr (map g [m..<n])"
proof -
  have "comprehension f (map int ks) = Inr (map g ks)" if "set ks \<subseteq> {m..<n}" for ks
    using that by (induction ks) (simp_all add: assms)
  then show ?thesis by simp
qed

lemma comprehension_Inl:
  "l \<in> set ls \<Longrightarrow> f l = Inl IndexError \<Longrightarrow> comprehension f ls = Inl IndexError"
proof (induction ls)
  case Nil
  then show ?case by simp
next
  case (Cons k ks)
  show ?case
  proof (cases "f k")
    case (Inl e)
    then show ?thesis by (cases e) simp
  next
    case (Inr v)
    with Cons have "comprehension f ks = Inl IndexError" by auto
    with Inr show ?thesis by simp
  qed
qed

lemma sum_list_upt_sum: "sum_list (map g [m..<n]) = (\<Sum>l = m..<n. g l)"
  by (simp add: interv_sum_list_conv_sum_set_nat)

section \<open>Closed forms\<close>

text \<open>
  The interior comprehension of the three feed-forward functions (they differ in the
  constant \<open>c\<close>) and the inference comprehension of the first two never raise: the
  range keeps every subscript inside the list.
\<close>

lemma interior_comprehension:
  "comprehension
     (\<lambda>l. and_then (getitem I l) (\<lambda>a.
           and_then (getitem I (l - 1)) (\<lambda>b.
           and_then (getitem I (l + 1)) (\<lambda>c'.
           Inr (a * (2 * b + c' + c))))))
     (py_range 1 (len I - 1)) =
   Inr (map (\<lambda>l. I ! l * (2 * I ! (l - 1) + I ! (l + 1) + c)) [1..<length I - 1])"
  unfolding py_range_len1
  by (rule comprehension_nat) (simp add: getitem_nat getitem_pred getitem_succ)

lemma inference_comprehension:
  "comprehension
     (\<lambda>l. and_then (getitem I l) (\<lambda>a.
           and_then (getitem I (l - 1)) (\<lambda>b.
           Inr (a * b))))
     (py_range 1 (len I)) =
   Inr (map (\<lambda>l. I ! l * I ! (l - 1)) [1..<length I])"
  unfolding py_range_len
  by (rule comprehension_nat) (simp add: getitem_nat getitem_pred)

lemma cvfnn_closed:
  assumes "2 \<le> length I"
  shows "cvfnn_complexity I =
    Inr (4 * (\<Sum>l = 1..<length I - 1. I ! l * (2 * I ! (l - 1) + I ! (l + 1) + 2))
           + 8 * last I * (I ! (length I - 2) + 1),
         4 * (\<Sum>l = 1..<length I. I ! l * I ! (l - 1)))"
proof -
  have "I \<noteq> []" using assms by auto
  then show ?thesis
    unfolding cvfnn_complexity_def interior_comprehension inference_comprehension
    by (simp add: getitem_minus1 getitem_minus2 [OF assms] sum_list_upt_sum)
qed

lemma scfnn_closed:
  assumes "2 \<le> length I"
  shows "scfnn_complexity I =
    Inr (4 * (\<Sum>l = 1..<length I - 1. I ! l * (2 * I ! (l - 1) + I ! (l + 1) + 2))
           + 2 * last I * (4 * I ! (length I - 2) + 3),
         4 * (\<Sum>l = 1..<length I. I ! l * I ! (l - 1)))"
proof -
  have "I \<noteq> []" using assms by auto
  then show ?thesis
    unfolding scfnn_complexity_def interior_comprehension inference_comprehension
    by (simp add: getitem_minus1 getitem_minus2 [OF assms] sum_list_upt_sum)
qed

lemma mlmvn_closed:
  assumes "2 \<le> length I"
  shows "mlmvn_complexity I =
    Inr (4 * (\<Sum>l = 1..<length I - 1. I ! l * (2 * I ! (l - 1) + I ! (l + 1) + 4))
           + 4 * last I * (2 * I ! (length I - 2) + 3),
         4 * (\<Sum>l = 1..<length I. I ! l * (I ! (l - 1) + 1)))"
proof -
  have "I \<noteq> []" using assms by auto
  moreover have "comprehension
        (\<lambda>l. and_then (getitem I l) (\<lambda>a.
              and_then (getitem I (l - 1)) (\<lambda>b.
              Inr (a * (b + 1)))))
        (py_range 1 (len I)) = Inr (map (\<lambda>l. I ! l * (I ! (l - 1) + 1)) [1..<length I])"
    unfolding py_range_len
    by (rule comprehension_nat) (simp add: getitem_nat getitem_pred)
  ultimately show ?thesis
    unfolding mlmvn_complexity_def interior_comprehension
    by (simp add: getitem_minus1 getitem_minus2 [OF assms] sum_list_upt_sum)
qed

text \<open>With fewer than two widths, \<^verbatim>\<open>I[-2]\<close> is out of range.\<close>

lemma fnn_raises:
  assumes "length I < 2"
  shows "cvfnn_complexity I = Inl IndexError" "scfnn_complexity I = Inl IndexError"
        "mlmvn_complexity I = Inl IndexError"
proof -
  have r: "py_range 1 (len I - 1) = []" using assms by (simp add: py_range_def len_def)
  have g: "getitem I (- 2) = Inl IndexError" using assms by (simp add: getitem_def len_def)
  have h: "and_then (getitem I (- 1)) (\<lambda>y. and_then (getitem I (- 2)) (k y)) = Inl IndexError"
    for k :: "int \<Rightarrow> int \<Rightarrow> py_error + int \<times> int"
  proof (cases "getitem I (- 1)")
    case (Inl e)
    then show ?thesis by (cases e) simp
  next
    case (Inr y)
    then show ?thesis by (simp add: g)
  qed
  show "cvfnn_complexity I = Inl IndexError"
    unfolding cvfnn_complexity_def r by (simp add: h)
  show "scfnn_complexity I = Inl IndexError"
    unfolding scfnn_complexity_def r by (simp add: h)
  show "mlmvn_complexity I = Inl IndexError"
    unfolding mlmvn_complexity_def r by (simp add: h)
qed

text \<open>
  The body of \<^verbatim>\<open>ptrbf_complexity\<close> returns when \<open>Os\<close> has at least as many entries as
  the list \<open>I\<close> it runs on, and raises when it has fewer.
\<close>

lemma ptrbf_body_closed:
  assumes "length I \<le> length Os" and "Os \<noteq> []"
  shows "ptrbf_body I Os =
    Inr (4 * (\<Sum>l = 1..<length I. I ! l * (Os ! (l - 1) + 3 * Os ! l + 3))
           + 4 * (\<Sum>l = 1..<length I - 1. Os ! l * (I ! (l + 1) + 1))
           + 4 * last Os,
         2 * (\<Sum>l = 1..<length I. I ! l * (Os ! (l - 1) + 2 * Os ! l + 1)))"
proof -
  have a: "comprehension
        (\<lambda>l. and_then (getitem I l) (\<lambda>a.
              and_then (getitem Os (l - 1)) (\<lambda>b.
              and_then (getitem Os l) (\<lambda>c.
              Inr (a * (b + 3 * c + 3))))))
        (py_range 1 (len I)) =
      Inr (map (\<lambda>l. I ! l * (Os ! (l - 1) + 3 * Os ! l + 3)) [1..<length I])"
    unfolding py_range_len
    by (rule comprehension_nat) (use assms in \<open>simp add: getitem_nat getitem_pred\<close>)
  have b: "comprehension
        (\<lambda>l. and_then (getitem Os l) (\<lambda>a.
              and_then (getitem I (l + 1)) (\<lambda>b.
              Inr (a * (b + 1)))))
        (py_range 1 (len I - 1)) =
      Inr (map (\<lambda>l. Os ! l * (I ! (l + 1) + 1)) [1..<length I - 1])"
    unfolding py_range_len1
    by (rule comprehension_nat) (use assms in \<open>simp add: getitem_nat getitem_succ\<close>)
  have c: "comprehension
        (\<lambda>l. and_then (getitem I l) (\<lambda>a.
              and_then (getitem Os (l - 1)) (\<lambda>b.
              and_then (getitem Os l) (\<lambda>c.
              Inr (a * (b + 2 * c + 1))))))
        (py_range 1 (len I)) =
      Inr (map (\<lambda>l. I ! l * (Os ! (l - 1) + 2 * Os ! l + 1)) [1..<length I])"
    unfolding py_range_len
    by (rule comprehension_nat) (use assms in \<open>simp add: getitem_nat getitem_pred\<close>)
  show ?thesis
    unfolding ptrbf_body_def a b c
    by (simp add: getitem_minus1 [OF assms(2)] sum_list_upt_sum)
qed

lemma ptrbf_body_raises:
  assumes "length Os < length I"
  shows "ptrbf_body I Os = Inl IndexError"
proof (cases "length I < 2")
  case True
  with assms have "Os = []" by (cases Os) auto
  then have "getitem Os (- 1) = Inl IndexError" by (simp add: getitem_def len_def)
  moreover from True have "py_range 1 (len I) = []" "py_range 1 (len I - 1) = []"
    by (simp_all add: py_range_def len_def)
  ultimately show ?thesis by (simp add: ptrbf_body_def)
next
  case False
  define k where "k = max 1 (length Os)"
  have k: "1 \<le> k" "k < length I" "length Os \<le> k" using False assms by (auto simp: k_def)
  have "int k \<in> set (py_range 1 (len I))" using k by (simp add: py_range_len)
  moreover have "and_then (getitem I (int k)) (\<lambda>a.
              and_then (getitem Os (int k - 1)) (\<lambda>b.
              and_then (getitem Os (int k)) (\<lambda>c.
              Inr (a * (b + 3 * c + 3))))) = Inl IndexError"
  proof (cases "getitem Os (int k - 1)")
    case (Inl e)
    with k show ?thesis by (cases e) (simp add: getitem_nat)
  next
    case (Inr b)
    with k show ?thesis by (simp add: getitem_nat getitem_out)
  qed
  ultimately have "comprehension
        (\<lambda>l. and_then (getitem I l) (\<lambda>a.
              and_then (getitem Os (l - 1)) (\<lambda>b.
              and_then (getitem Os l) (\<lambda>c.
              Inr (a * (b + 3 * c + 3))))))
        (py_range 1 (len I)) = Inl IndexError"
    by (rule comprehension_Inl)
  then show ?thesis by (simp add: ptrbf_body_def)
qed

section \<open>Signs and order of the sums\<close>

lemma nonneg_last: "\<forall>x\<in>set xs. (0::int) \<le> x \<Longrightarrow> xs \<noteq> [] \<Longrightarrow> 0 \<le> last xs"
  by simp

lemma prod_mono:
  fixes a a' b b' :: int
  shows "0 \<le> a \<Longrightarrow> a \<le> a' \<Longrightarrow> 0 \<le> b \<Longrightarrow> b \<le> b' \<Longrightarrow> a * b \<le> a' * b'"
  by (rule mult_mono) simp_all

lemma interior_sum_nonneg:
  fixes c :: int
  assumes "\<forall>x\<in>set I. 0 \<le> x" and "0 \<le> c"
  shows "0 \<le> (\<Sum>l = 1..<length I - 1. I ! l * (2 * I ! (l - 1) + I ! (l + 1) + c))"
proof -
  have n: "0 \<le> I ! l" if "l < length I" for l using assms(1) that by simp
  show ?thesis
    using assms(2) by (intro sum_nonneg mult_nonneg_nonneg add_nonneg_nonneg n) auto
qed

lemma inference_sum_nonneg:
  fixes c :: int
  assumes "\<forall>x\<in>set I. 0 \<le> x" and "0 \<le> c"
  shows "0 \<le> (\<Sum>l = 1..<length I. I ! l * (I ! (l - 1) + c))"
proof -
  have n: "0 \<le> I ! l" if "l < length I" for l using assms(1) that by simp
  show ?thesis
    using assms(2) by (intro sum_nonneg mult_nonneg_nonneg add_nonneg_nonneg n) auto
qed

lemma cvfnn_nonneg:
  assumes "2 \<le> length I" and "\<forall>x\<in>set I. 0 \<le> x"
  shows "returns_nonneg (cvfnn_complexity I)"
proof -
  have "0 \<le> last I" using assms by (intro nonneg_last) auto
  moreover have "0 \<le> I ! (length I - 2)" using assms by simp
  ultimately show ?thesis
    using interior_sum_nonneg [OF assms(2), of 2] inference_sum_nonneg [OF assms(2), of 0]
    by (simp add: cvfnn_closed [OF assms(1)])
qed

lemma scfnn_nonneg:
  assumes "2 \<le> length I" and "\<forall>x\<in>set I. 0 \<le> x"
  shows "returns_nonneg (scfnn_complexity I)"
proof -
  have "0 \<le> last I" using assms by (intro nonneg_last) auto
  moreover have "0 \<le> I ! (length I - 2)" using assms by simp
  ultimately show ?thesis
    using interior_sum_nonneg [OF assms(2), of 2] inference_sum_nonneg [OF assms(2), of 0]
    by (simp add: scfnn_closed [OF assms(1)])
qed

lemma mlmvn_nonneg:
  assumes "2 \<le> length I" and "\<forall>x\<in>set I. 0 \<le> x"
  shows "returns_nonneg (mlmvn_complexity I)"
proof -
  have "0 \<le> last I" using assms by (intro nonneg_last) auto
  moreover have "0 \<le> I ! (length I - 2)" using assms by simp
  ultimately show ?thesis
    using interior_sum_nonneg [OF assms(2), of 4] inference_sum_nonneg [OF assms(2), of 1]
    by (simp add: mlmvn_closed [OF assms(1)])
qed

lemma ptrbf_body_nonneg:
  assumes "length I \<le> length Os" and "Os \<noteq> []"
    and nI: "\<forall>x\<in>set I. 0 \<le> x" and nO: "\<forall>x\<in>set Os. 0 \<le> x"
  shows "returns_nonneg (ptrbf_body I Os)"
proof -
  have n: "0 \<le> I ! l" if "l < length I" for l using nI that by simp
  have m: "0 \<le> Os ! l" if "l < length Os" for l using nO that by simp
  have "0 \<le> (\<Sum>l = 1..<length I. I ! l * (Os ! (l - 1) + 3 * Os ! l + 3))"
    using assms(1) by (intro sum_nonneg mult_nonneg_nonneg add_nonneg_nonneg n m) auto
  moreover have "0 \<le> (\<Sum>l = 1..<length I - 1. Os ! l * (I ! (l + 1) + 1))"
    using assms(1) by (intro sum_nonneg mult_nonneg_nonneg add_nonneg_nonneg n m) auto
  moreover have "0 \<le> (\<Sum>l = 1..<length I. I ! l * (Os ! (l - 1) + 2 * Os ! l + 1))"
    using assms(1) by (intro sum_nonneg mult_nonneg_nonneg add_nonneg_nonneg n m) auto
  moreover have "0 \<le> last Os" using nO assms(2) by (rule nonneg_last)
  ultimately show ?thesis by (simp add: ptrbf_body_closed [OF assms(1,2)])
qed

lemma ptrbf_nonneg:
  assumes "length Os = length I + 1" "\<forall>x\<in>set I. 0 \<le> x" "\<forall>x\<in>set Os. 0 \<le> x"
  shows "returns_nonneg (ptrbf_complexity I Os)"
proof -
  have "returns_nonneg (ptrbf_body (0 # I) Os)"
    using assms by (intro ptrbf_body_nonneg) auto
  then show ?thesis by (simp add: ptrbf_complexity_def)
qed

text \<open>
  Monotonicity is proved for two width lists of the same length, the first non-negative
  and pointwise below the second; raising one entry is the special case.
\<close>

lemma interior_sum_mono:
  fixes c :: int
  assumes "length I' = length I" and "0 \<le> c"
    and le: "\<And>l. l < length I \<Longrightarrow> 0 \<le> I ! l \<and> I ! l \<le> I' ! l"
  shows "(\<Sum>l = 1..<length I - 1. I ! l * (2 * I ! (l - 1) + I ! (l + 1) + c))
       \<le> (\<Sum>l = 1..<length I - 1. I' ! l * (2 * I' ! (l - 1) + I' ! (l + 1) + c))"
proof (rule sum_mono)
  fix l assume "l \<in> {1..<length I - 1}"
  then have "l < length I" "l - 1 < length I" "l + 1 < length I" by auto
  then show "I ! l * (2 * I ! (l - 1) + I ! (l + 1) + c)
      \<le> I' ! l * (2 * I' ! (l - 1) + I' ! (l + 1) + c)"
    using le [of l] le [of "l - 1"] le [of "l + 1"] \<open>0 \<le> c\<close> by (intro prod_mono) simp_all
qed

lemma inference_sum_mono:
  fixes c :: int
  assumes "length I' = length I" and "0 \<le> c"
    and le: "\<And>l. l < length I \<Longrightarrow> 0 \<le> I ! l \<and> I ! l \<le> I' ! l"
  shows "(\<Sum>l = 1..<length I. I ! l * (I ! (l - 1) + c))
       \<le> (\<Sum>l = 1..<length I. I' ! l * (I' ! (l - 1) + c))"
proof (rule sum_mono)
  fix l assume "l \<in> {1..<length I}"
  then have "l < length I" "l - 1 < length I" by auto
  then show "I ! l * (I ! (l - 1) + c) \<le> I' ! l * (I' ! (l - 1) + c)"
    using le [of l] le [of "l - 1"] \<open>0 \<le> c\<close> by (intro prod_mono) simp_all
qed

lemma output_term_mono:
  fixes p q :: int
  assumes len: "2 \<le> length I" "length I' = length I" and "0 \<le> p" "0 \<le> q"
    and le: "\<And>l. l < length I \<Longrightarrow> 0 \<le> I ! l \<and> I ! l \<le> I' ! l"
  shows "last I * (p * I ! (length I - 2) + q) \<le> last I' * (p * I' ! (length I' - 2) + q)"
proof -
  have "last I = I ! (length I - 1)" "last I' = I' ! (length I - 1)"
    using len by (simp_all add: last_nth2)
  moreover have "0 \<le> I ! (length I - 1) \<and> I ! (length I - 1) \<le> I' ! (length I - 1)"
    using len by (intro le) simp
  moreover have "0 \<le> I ! (length I - 2) \<and> I ! (length I - 2) \<le> I' ! (length I - 2)"
    using len by (intro le) simp
  ultimately show ?thesis
    using \<open>0 \<le> p\<close> \<open>0 \<le> q\<close> len(2)
    by (intro prod_mono add_mono mult_left_mono add_nonneg_nonneg mult_nonneg_nonneg) simp_all
qed

lemma cvfnn_mono:
  assumes len: "2 \<le> length I" "length I' = length I"
    and le: "\<And>l. l < length I \<Longrightarrow> 0 \<le> I ! l \<and> I ! l \<le> I' ! l"
  shows "returns_le (cvfnn_complexity I) (cvfnn_complexity I')"
  using interior_sum_mono [of I' I 2, OF len(2) _ le]
        inference_sum_mono [of I' I 0, OF len(2) _ le]
        output_term_mono [of I I' 1 1, OF len _ _ le] len
  by (simp add: cvfnn_closed)

lemma scfnn_mono:
  assumes len: "2 \<le> length I" "length I' = length I"
    and le: "\<And>l. l < length I \<Longrightarrow> 0 \<le> I ! l \<and> I ! l \<le> I' ! l"
  shows "returns_le (scfnn_complexity I) (scfnn_complexity I')"
  using interior_sum_mono [of I' I 2, OF len(2) _ le]
        inference_sum_mono [of I' I 0, OF len(2) _ le]
        output_term_mono [of I I' 4 3, OF len _ _ le] len
  by (simp add: scfnn_closed)

lemma mlmvn_mono:
  assumes len: "2 \<le> length I" "length I' = length I"
    and le: "\<And>l. l < length I \<Longrightarrow> 0 \<le> I ! l \<and> I ! l \<le> I' ! l"
  shows "returns_le (mlmvn_complexity I) (mlmvn_complexity I')"
  using interior_sum_mono [of I' I 4, OF len(2) _ le]
        inference_sum_mono [of I' I 1, OF len(2) _ le]
        output_term_mono [of I I' 2 3, OF len _ _ le] len
  by (simp add: mlmvn_closed)

lemma ptrbf_body_mono:
  assumes len: "length I \<le> length Os" "Os \<noteq> []" "length I' = length I"
      "length Os' = length Os"
    and leI: "\<And>l. l < length I \<Longrightarrow> 0 \<le> I ! l \<and> I ! l \<le> I' ! l"
    and leO: "\<And>l. l < length Os \<Longrightarrow> 0 \<le> Os ! l \<and> Os ! l \<le> Os' ! l"
  shows "returns_le (ptrbf_body I Os) (ptrbf_body I' Os')"
proof -
  have a: "(\<Sum>l = 1..<length I. I ! l * (Os ! (l - 1) + 3 * Os ! l + 3))
         \<le> (\<Sum>l = 1..<length I. I' ! l * (Os' ! (l - 1) + 3 * Os' ! l + 3))"
  proof (rule sum_mono)
    fix l assume "l \<in> {1..<length I}"
    then have "l < length I" "l - 1 < length Os" "l < length Os" using len(1) by auto
    then show "I ! l * (Os ! (l - 1) + 3 * Os ! l + 3)
        \<le> I' ! l * (Os' ! (l - 1) + 3 * Os' ! l + 3)"
      using leI [of l] leO [of l] leO [of "l - 1"] by (intro prod_mono) simp_all
  qed
  have b: "(\<Sum>l = 1..<length I - 1. Os ! l * (I ! (l + 1) + 1))
         \<le> (\<Sum>l = 1..<length I - 1. Os' ! l * (I' ! (l + 1) + 1))"
  proof (rule sum_mono)
    fix l assume "l \<in> {1..<length I - 1}"
    then have "l + 1 < length I" "l < length Os" using len(1) by auto
    then show "Os ! l * (I ! (l + 1) + 1) \<le> Os' ! l * (I' ! (l + 1) + 1)"
      using leI [of "l + 1"] leO [of l] by (intro prod_mono) simp_all
  qed
  have c: "(\<Sum>l = 1..<length I. I ! l * (Os ! (l - 1) + 2 * Os ! l + 1))
         \<le> (\<Sum>l = 1..<length I. I' ! l * (Os' ! (l - 1) + 2 * Os' ! l + 1))"
  proof (rule sum_mono)
    fix l assume "l \<in> {1..<length I}"
    then have "l < length I" "l - 1 < length Os" "l < length Os" using len(1) by auto
    then show "I ! l * (Os ! (l - 1) + 2 * Os ! l + 1)
        \<le> I' ! l * (Os' ! (l - 1) + 2 * Os' ! l + 1)"
      using leI [of l] leO [of l] leO [of "l - 1"] by (intro prod_mono) simp_all
  qed
  have d: "last Os \<le> last Os'"
  proof -
    have "Os' \<noteq> []" using len(2,4) by auto
    then have "last Os = Os ! (length Os - 1)" "last Os' = Os' ! (length Os - 1)"
      using len(2,4) by (simp_all add: last_conv_nth)
    moreover have "0 \<le> Os ! (length Os - 1) \<and> Os ! (length Os - 1) \<le> Os' ! (length Os - 1)"
      using len(2) by (intro leO) simp
    ultimately show ?thesis by simp
  qed
  have e: "Os' \<noteq> []" "length I' \<le> length Os'" using len by auto
  show ?thesis
    using a b c d len(3)
    by (simp add: ptrbf_body_closed [OF len(1,2)] ptrbf_body_closed [OF e(2,1)])
qed

lemma update_pointwise:
  fixes xs :: "int list"
  assumes "\<forall>x\<in>set xs. 0 \<le> x" and "0 \<le> d" and "l < length xs"
  shows "0 \<le> xs ! l \<and> xs ! l \<le> xs[k := xs ! k + d] ! l"
  using assms by (cases "l = k") simp_all

lemma same_pointwise:
  fixes xs :: "int list"
  assumes "\<forall>x\<in>set xs. 0 \<le> x" and "l < length xs"
  shows "0 \<le> xs ! l \<and> xs ! l \<le> xs ! l"
  using assms by simp

lemma cons_pointwise:
  fixes xs ys :: "int list"
  assumes "\<And>l. l < length xs \<Longrightarrow> 0 \<le> xs ! l \<and> xs ! l \<le> ys ! l" and "l < length (0 # xs)"
  shows "0 \<le> (0 # xs) ! l \<and> (0 # xs) ! l \<le> (0 # ys) ! l"
  using assms by (cases l) simp_all

lemma ptrbf_mono:
  assumes len: "length Os = length I + 1" "length I' = length I" "length Os' = length Os"
    and leI: "\<And>l. l < length I \<Longrightarrow> 0 \<le> I ! l \<and> I ! l \<le> I' ! l"
    and leO: "\<And>l. l < length Os \<Longrightarrow> 0 \<le> Os ! l \<and> Os ! l \<le> Os' ! l"
  shows "returns_le (ptrbf_complexity I Os) (ptrbf_complexity I' Os')"
proof -
  have "returns_le (ptrbf_body (0 # I) Os) (ptrbf_body (0 # I') Os')"
  proof (rule ptrbf_body_mono)
    show "length (0 # I) \<le> length Os" "Os \<noteq> []" "length (0 # I') = length (0 # I)"
      "length Os' = length Os" using len by auto
    show "0 \<le> (0 # I) ! l \<and> (0 # I) ! l \<le> (0 # I') ! l" if "l < length (0 # I)" for l
      using leI that by (rule cons_pointwise)
    show "0 \<le> Os ! l \<and> Os ! l \<le> Os' ! l" if "l < length Os" for l
      using that by (rule leO)
  qed
  then show ?thesis by (simp add: ptrbf_complexity_def)
qed

section \<open>The documented examples\<close>

text \<open>
  C1. The six literal scenarios are reproduced exactly:
  \<^verbatim>\<open>cvfnn_complexity([6, 97, 3])\<close> is \<open>(8948, 3492)\<close>,
  \<^verbatim>\<open>scfnn_complexity([6, 97, 3])\<close> is \<open>(8942, 3492)\<close>,
  \<^verbatim>\<open>mlmvn_complexity([6, 97, 3])\<close> is \<open>(9736, 3892)\<close>,
  \<^verbatim>\<open>crbf_complexity(6, 100, 3)\<close> is \<open>(4712, 1900)\<close>,
  \<^verbatim>\<open>fcrbf_complexity(6, 100, 3)\<close> is \<open>(12012, 3600)\<close> and
  \<^verbatim>\<open>ptrbf_complexity([50, 50], [6, 50, 3])\<close> is \<open>(54412, 16400)\<close>.
\<close>

theorem literal_scenarios:
  "cvfnn_complexity [6, 97, 3] = Inr (8948, 3492) \<and>
   scfnn_complexity [6, 97, 3] = Inr (8942, 3492) \<and>
   mlmvn_complexity [6, 97, 3] = Inr (9736, 3892) \<and>
   crbf_complexity 6 100 3 = Inr (4712, 1900) \<and>
   fcrbf_complexity 6 100 3 = Inr (12012, 3600) \<and>
   ptrbf_complexity [50, 50] [6, 50, 3] = Inr (54412, 16400)"
  by code_simp

section \<open>The formulas\<close>

text \<open>
  C2. For every sequence \<open>I\<close> of at least three widths, \<^verbatim>\<open>cvfnn_complexity(I)\<close> returns
  the pair \<open>(t, i)\<close> where \<open>t\<close> is four times the sum over the interior layers
  \<open>l = 1 .. len(I)-2\<close> of \<open>I[l]*(2*I[l-1] + I[l+1] + 2)\<close>, plus the output-layer term
  \<open>8*I[-1]*(I[-2]+1)\<close>, and \<open>i\<close> is four times the sum over \<open>l = 1 .. len(I)-1\<close> of
  \<open>I[l]*I[l-1]\<close>. The widths of the claim are non-negative; the equation holds for
  negative ones as well.
\<close>

theorem cvfnn_formula:
  assumes "3 \<le> length I"
  shows "cvfnn_complexity I =
    Inr (4 * (\<Sum>l = 1..<length I - 1. I ! l * (2 * I ! (l - 1) + I ! (l + 1) + 2))
           + 8 * last I * (I ! (length I - 2) + 1),
         4 * (\<Sum>l = 1..<length I. I ! l * I ! (l - 1)))"
  using assms by (intro cvfnn_closed) simp

text \<open>The formula at \<open>[6, 97, 3]\<close>: one interior layer, two layers in the inference sum.\<close>

theorem cvfnn_formula_witness:
  "3 \<le> length [6, 97, 3 :: int] \<and>
   cvfnn_complexity [6, 97, 3] =
     Inr (4 * (97 * (2 * 6 + 3 + 2)) + 8 * 3 * (97 + 1), 4 * (97 * 6 + 3 * 97))"
  using cvfnn_formula [of "[6, 97, 3]"] by (simp add: numeral_2_eq_2 numeral_3_eq_3)

text \<open>
  C3. For every pair of sequences \<open>I\<close> (neuron counts) and \<open>O\<close> (output counts, starting
  with the input width) with \<open>len(O) = len(I) + 1\<close>, \<^verbatim>\<open>ptrbf_complexity(I, O)\<close> prepends
  a 0 to \<open>I\<close> and returns, with the bounds taken on the prepended list \<open>0 # I\<close>: the
  training cost \<open>4 * sum(I[l]*(O[l-1] + 3*O[l] + 3))\<close> over \<open>l = 1 .. len(I)-1\<close>, plus
  \<open>4 * sum(O[l]*(I[l+1] + 1))\<close> over \<open>l = 1 .. len(I)-2\<close>, plus \<open>4*O[-1]\<close>; and the
  inference cost \<open>2 * sum(I[l]*(O[l-1] + 2*O[l] + 1))\<close> over \<open>l = 1 .. len(I)-1\<close>.
\<close>

theorem ptrbf_formula:
  assumes "length Os = length I + 1"
  shows "ptrbf_complexity I Os =
    Inr (4 * (\<Sum>l = 1..<length (0 # I). (0 # I) ! l * (Os ! (l - 1) + 3 * Os ! l + 3))
           + 4 * (\<Sum>l = 1..<length (0 # I) - 1. Os ! l * ((0 # I) ! (l + 1) + 1))
           + 4 * last Os,
         2 * (\<Sum>l = 1..<length (0 # I). (0 # I) ! l * (Os ! (l - 1) + 2 * Os ! l + 1)))"
proof -
  have "length (0 # I) \<le> length Os" "Os \<noteq> []" using assms by auto
  then show ?thesis
    unfolding ptrbf_complexity_def append_Cons append_Nil by (rule ptrbf_body_closed)
qed

text \<open>The formula at \<open>I = [50, 50]\<close>, \<open>O = [6, 50, 3]\<close>.\<close>

theorem ptrbf_formula_witness:
  "length [6, 50, 3 :: int] = length [50, 50 :: int] + 1 \<and>
   ptrbf_complexity [50, 50] [6, 50, 3] =
     Inr (4 * (50 * (6 + 3 * 50 + 3) + 50 * (50 + 3 * 3 + 3)) + 4 * (50 * (50 + 1)) + 4 * 3,
          2 * (50 * (6 + 2 * 50 + 1) + 50 * (50 + 2 * 3 + 1)))"
  using ptrbf_formula [of "[6, 50, 3]" "[50, 50]"] by (simp add: numeral_2_eq_2 numeral_3_eq_3)

section \<open>CVFNN against SCFNN\<close>

text \<open>
  The two training costs need not differ: with an output layer of width 0 both output
  terms vanish, and on \<open>[6, 97, 0]\<close> the two functions return the same pair.
\<close>

theorem equal_training_counterexample:
  "cvfnn_complexity [6, 97, 0] = Inr (5432, 2328) \<and>
   scfnn_complexity [6, 97, 0] = Inr (5432, 2328)"
  by code_simp

text \<open>
  C4, amended. For every sequence \<open>I\<close> of at least two widths, \<^verbatim>\<open>cvfnn_complexity(I)\<close>
  and \<^verbatim>\<open>scfnn_complexity(I)\<close> return the same inference cost, four times the sum over
  \<open>l = 1 .. len(I)-1\<close> of \<open>I[l]*I[l-1]\<close>; their training costs differ exactly when the
  output width \<open>I[-1]\<close> is not 0.
\<close>

theorem inference_equal:
  assumes "2 \<le> length I"
  shows "\<exists>t t' i. cvfnn_complexity I = Inr (t, i) \<and> scfnn_complexity I = Inr (t', i) \<and>
           i = 4 * (\<Sum>l = 1..<length I. I ! l * I ! (l - 1)) \<and> (t \<noteq> t' \<longleftrightarrow> last I \<noteq> 0)"
  unfolding cvfnn_closed [OF assms] scfnn_closed [OF assms]
  by (simp add: algebra_simps)

theorem inference_equal_witness:
  "2 \<le> length [6, 97, 3 :: int] \<and>
   (\<exists>t t' i. cvfnn_complexity [6, 97, 3] = Inr (t, i) \<and>
      scfnn_complexity [6, 97, 3] = Inr (t', i) \<and>
      i = 4 * (97 * 6 + 3 * 97) \<and> (t \<noteq> t' \<longleftrightarrow> last [6, 97, 3 :: int] \<noteq> 0))"
  using inference_equal [of "[6, 97, 3]"] by (simp add: numeral_2_eq_2 numeral_3_eq_3)

text \<open>
  C9. For every sequence \<open>I\<close> of at least two integers, the training cost of
  \<^verbatim>\<open>cvfnn_complexity(I)\<close> exceeds that of \<^verbatim>\<open>scfnn_complexity(I)\<close> by exactly \<open>2*I[-1]\<close>:
  both are four times the same interior sum \<open>s\<close> plus their output term, and
  \<open>8*I[-1]*(I[-2]+1) - 2*I[-1]*(4*I[-2]+3) = 2*I[-1]\<close>.
\<close>

theorem training_difference:
  assumes "2 \<le> length I"
  shows "\<exists>s i. cvfnn_complexity I = Inr (4 * s + 8 * last I * (I ! (length I - 2) + 1), i) \<and>
           scfnn_complexity I = Inr (4 * s + 2 * last I * (4 * I ! (length I - 2) + 3), i) \<and>
           (4 * s + 8 * last I * (I ! (length I - 2) + 1))
             - (4 * s + 2 * last I * (4 * I ! (length I - 2) + 3)) = 2 * last I"
  unfolding cvfnn_closed [OF assms] scfnn_closed [OF assms]
  by (simp add: algebra_simps)

theorem training_difference_witness:
  "2 \<le> length [6, 97, 3 :: int] \<and>
   (\<exists>s i. cvfnn_complexity [6, 97, 3] = Inr (4 * s + 8 * 3 * (97 + 1), i) \<and>
           scfnn_complexity [6, 97, 3] = Inr (4 * s + 2 * 3 * (4 * 97 + 3), i) \<and>
           (4 * s + 8 * 3 * (97 + 1)) - (4 * s + 2 * 3 * (4 * 97 + 3)) = 2 * 3)"
  using training_difference [of "[6, 97, 3]"] by (simp add: numeral_2_eq_2 numeral_3_eq_3)

section \<open>Signs and monotonicity of the costs\<close>

text \<open>
  C6. For each of the six functions and every valid input of non-negative integers (a
  width sequence of length at least 2 for the feed-forward networks, scalars at least 0
  for the two shallow networks, \<open>len(O) = len(I) + 1\<close> for PT-RBF), the call returns a
  pair and both of its components are non-negative integers.
\<close>

theorem costs_nonneg:
  "(2 \<le> length I \<and> (\<forall>x\<in>set I. 0 \<le> x) \<longrightarrow>
      returns_nonneg (cvfnn_complexity I) \<and> returns_nonneg (scfnn_complexity I) \<and>
      returns_nonneg (mlmvn_complexity I)) \<and>
   (0 \<le> inp \<and> 0 \<le> neurons \<and> 0 \<le> out \<longrightarrow>
      returns_nonneg (crbf_complexity inp neurons out) \<and>
      returns_nonneg (fcrbf_complexity inp neurons out)) \<and>
   (length Os = length N + 1 \<and> (\<forall>x\<in>set N. 0 \<le> x) \<and> (\<forall>x\<in>set Os. 0 \<le> x) \<longrightarrow>
      returns_nonneg (ptrbf_complexity N Os))"
proof -
  have rbf: "returns_nonneg (crbf_complexity inp neurons out) \<and>
      returns_nonneg (fcrbf_complexity inp neurons out)"
    if "0 \<le> inp" "0 \<le> neurons" "0 \<le> out"
    using that by (simp add: crbf_complexity_def fcrbf_complexity_def)
  show ?thesis using cvfnn_nonneg scfnn_nonneg mlmvn_nonneg rbf ptrbf_nonneg by blast
qed

theorem costs_nonneg_witness:
  "2 \<le> length [6, 97, 3 :: int] \<and> list_all (\<lambda>x. 0 \<le> x) [6, 97, 3 :: int] \<and>
   (0::int) \<le> 6 \<and> (0::int) \<le> 100 \<and> (0::int) \<le> 3 \<and>
   length [6, 50, 3 :: int] = length [50, 50 :: int] + 1 \<and>
   list_all (\<lambda>x. 0 \<le> x) [50, 50 :: int] \<and> list_all (\<lambda>x. 0 \<le> x) [6, 50, 3 :: int] \<and>
   returns_nonneg (cvfnn_complexity [6, 97, 3]) \<and>
   returns_nonneg (scfnn_complexity [6, 97, 3]) \<and>
   returns_nonneg (mlmvn_complexity [6, 97, 3]) \<and>
   returns_nonneg (crbf_complexity 6 100 3) \<and>
   returns_nonneg (fcrbf_complexity 6 100 3) \<and>
   returns_nonneg (ptrbf_complexity [50, 50] [6, 50, 3])"
  using costs_nonneg [of "[6, 97, 3]" 6 100 3 "[6, 50, 3]" "[50, 50]"]
  by simp

text \<open>
  C5. Monotonicity: for each of the six functions and every valid input of non-negative
  integers, raising one layer width (entry \<open>k\<close> of the width sequence; entry \<open>j\<close> of the
  neuron counts or entry \<open>m\<close> of the output counts of PT-RBF) or one scalar count by a
  positive amount \<open>d\<close>, all other inputs fixed, decreases neither the training cost nor
  the inference cost.
\<close>

theorem widening_monotone:
  assumes "0 < d"
  shows "(2 \<le> length I \<and> (\<forall>x\<in>set I. 0 \<le> x) \<and> k < length I \<longrightarrow>
            returns_le (cvfnn_complexity I) (cvfnn_complexity (I[k := I ! k + d])) \<and>
            returns_le (scfnn_complexity I) (scfnn_complexity (I[k := I ! k + d])) \<and>
            returns_le (mlmvn_complexity I) (mlmvn_complexity (I[k := I ! k + d]))) \<and>
         (0 \<le> inp \<and> 0 \<le> neurons \<and> 0 \<le> out \<longrightarrow>
            returns_le (crbf_complexity inp neurons out) (crbf_complexity (inp + d) neurons out) \<and>
            returns_le (crbf_complexity inp neurons out) (crbf_complexity inp (neurons + d) out) \<and>
            returns_le (crbf_complexity inp neurons out) (crbf_complexity inp neurons (out + d)) \<and>
            returns_le (fcrbf_complexity inp neurons out) (fcrbf_complexity (inp + d) neurons out) \<and>
            returns_le (fcrbf_complexity inp neurons out) (fcrbf_complexity inp (neurons + d) out) \<and>
            returns_le (fcrbf_complexity inp neurons out) (fcrbf_complexity inp neurons (out + d))) \<and>
         (length Os = length N + 1 \<and> (\<forall>x\<in>set N. 0 \<le> x) \<and> (\<forall>x\<in>set Os. 0 \<le> x) \<longrightarrow>
            (j < length N \<longrightarrow>
               returns_le (ptrbf_complexity N Os) (ptrbf_complexity (N[j := N ! j + d]) Os)) \<and>
            (m < length Os \<longrightarrow>
               returns_le (ptrbf_complexity N Os) (ptrbf_complexity N (Os[m := Os ! m + d]))))"
proof -
  have d: "0 \<le> d" using assms by simp
  have fnn: "returns_le (cvfnn_complexity I) (cvfnn_complexity (I[k := I ! k + d])) \<and>
            returns_le (scfnn_complexity I) (scfnn_complexity (I[k := I ! k + d])) \<and>
            returns_le (mlmvn_complexity I) (mlmvn_complexity (I[k := I ! k + d]))"
    if "2 \<le> length I" "\<forall>x\<in>set I. 0 \<le> x"
    using that d
    by (intro conjI cvfnn_mono scfnn_mono mlmvn_mono update_pointwise) simp_all
  have rbf: "returns_le (crbf_complexity inp neurons out) (crbf_complexity (inp + d) neurons out) \<and>
            returns_le (crbf_complexity inp neurons out) (crbf_complexity inp (neurons + d) out) \<and>
            returns_le (crbf_complexity inp neurons out) (crbf_complexity inp neurons (out + d)) \<and>
            returns_le (fcrbf_complexity inp neurons out) (fcrbf_complexity (inp + d) neurons out) \<and>
            returns_le (fcrbf_complexity inp neurons out) (fcrbf_complexity inp (neurons + d) out) \<and>
            returns_le (fcrbf_complexity inp neurons out) (fcrbf_complexity inp neurons (out + d))"
    if "0 \<le> inp" "0 \<le> neurons" "0 \<le> out"
    using that d by (simp add: crbf_complexity_def fcrbf_complexity_def algebra_simps)
  have pt1: "returns_le (ptrbf_complexity N Os) (ptrbf_complexity (N[j := N ! j + d]) Os)"
    if "length Os = length N + 1" "\<forall>x\<in>set N. 0 \<le> x" "\<forall>x\<in>set Os. 0 \<le> x"
    using that d by (intro ptrbf_mono update_pointwise same_pointwise) simp_all
  have pt2: "returns_le (ptrbf_complexity N Os) (ptrbf_complexity N (Os[m := Os ! m + d]))"
    if "length Os = length N + 1" "\<forall>x\<in>set N. 0 \<le> x" "\<forall>x\<in>set Os. 0 \<le> x"
    using that d by (intro ptrbf_mono update_pointwise same_pointwise) simp_all
  show ?thesis using fnn rbf pt1 pt2 by blast
qed

text \<open>
  One more neuron in the hidden layer of \<open>[6, 97, 3]\<close>; one more input, neuron or output
  of the shallow networks on \<open>(6, 100, 3)\<close>; one more neuron in the second layer, or one
  more final output, of the PT-RBF network \<open>[50, 50]\<close>, \<open>[6, 50, 3]\<close>.
\<close>

theorem widening_monotone_witness:
  "(0::int) < 1 \<and> 2 \<le> length [6, 97, 3 :: int] \<and> list_all (\<lambda>x. 0 \<le> x) [6, 97, 3 :: int] \<and>
   (1::nat) < length [6, 97, 3 :: int] \<and>
   (0::int) \<le> 6 \<and> (0::int) \<le> 100 \<and> (0::int) \<le> 3 \<and>
   length [6, 50, 3 :: int] = length [50, 50 :: int] + 1 \<and>
   list_all (\<lambda>x. 0 \<le> x) [50, 50 :: int] \<and> list_all (\<lambda>x. 0 \<le> x) [6, 50, 3 :: int] \<and>
   (1::nat) < length [50, 50 :: int] \<and> (2::nat) < length [6, 50, 3 :: int] \<and>
   returns_le (cvfnn_complexity [6, 97, 3]) (cvfnn_complexity [6, 98, 3]) \<and>
   returns_le (scfnn_complexity [6, 97, 3]) (scfnn_complexity [6, 98, 3]) \<and>
   returns_le (mlmvn_complexity [6, 97, 3]) (mlmvn_complexity [6, 98, 3]) \<and>
   returns_le (crbf_complexity 6 100 3) (crbf_complexity 7 100 3) \<and>
   returns_le (crbf_complexity 6 100 3) (crbf_complexity 6 101 3) \<and>
   returns_le (crbf_complexity 6 100 3) (crbf_complexity 6 100 4) \<and>
   returns_le (fcrbf_complexity 6 100 3) (fcrbf_complexity 7 100 3) \<and>
   returns_le (fcrbf_complexity 6 100 3) (fcrbf_complexity 6 101 3) \<and>
   returns_le (fcrbf_complexity 6 100 3) (fcrbf_complexity 6 100 4) \<and>
   returns_le (ptrbf_complexity [50, 50] [6, 50, 3]) (ptrbf_complexity [50, 51] [6, 50, 3]) \<and>
   returns_le (ptrbf_complexity [50, 50] [6, 50, 3]) (ptrbf_complexity [50, 50] [6, 50, 4])"
  using widening_monotone [of 1 "[6, 97, 3]" 1 6 100 3 "[6, 50, 3]" "[50, 50]" 1 2]
  by simp

section \<open>Short and malformed inputs\<close>

text \<open>
  C7. For every sequence \<open>I\<close> of exactly two widths, none of \<^verbatim>\<open>cvfnn_complexity(I)\<close>,
  \<^verbatim>\<open>scfnn_complexity(I)\<close> and \<^verbatim>\<open>mlmvn_complexity(I)\<close> raises: the interior range is
  empty, so the interior sum contributes 0 and no subscript is out of range, and the
  result keeps only the output term and the inference sum; for CVFNN it is
  \<open>(8*I[1]*(I[0]+1), 4*I[1]*I[0])\<close>.
\<close>

theorem two_layers:
  assumes "length I = 2"
  shows "py_range 1 (len I - 1) = [] \<and>
         cvfnn_complexity I = Inr (8 * I ! 1 * (I ! 0 + 1), 4 * (I ! 1 * I ! 0)) \<and>
         scfnn_complexity I = Inr (2 * I ! 1 * (4 * I ! 0 + 3), 4 * (I ! 1 * I ! 0)) \<and>
         mlmvn_complexity I = Inr (4 * I ! 1 * (2 * I ! 0 + 3), 4 * (I ! 1 * (I ! 0 + 1)))"
proof -
  from assms obtain a b where I: "I = [a, b]"
    by (cases I; cases "tl I") auto
  show ?thesis
    unfolding I
    by (simp add: py_range_def len_def cvfnn_closed scfnn_closed mlmvn_closed)
qed

theorem two_layers_witness:
  "length [6, 3 :: int] = 2 \<and> py_range 1 (len [6, 3] - 1) = [] \<and>
   cvfnn_complexity [6, 3] = Inr (168, 72) \<and>
   scfnn_complexity [6, 3] = Inr (162, 72) \<and>
   mlmvn_complexity [6, 3] = Inr (180, 84)"
  using two_layers [of "[6, 3]"] by simp

text \<open>
  No function validates its input. A negative scalar gives \<^verbatim>\<open>crbf_complexity(-1, 1, 1)\<close>
  the pair \<open>(11, 1)\<close>, and with one output count too many
  \<^verbatim>\<open>ptrbf_complexity([1], [1, 1, 1])\<close> returns \<open>(32, 8)\<close>: in both cases a complete cost
  pair is returned and nothing is raised.
\<close>

theorem no_validation_counterexample:
  "crbf_complexity (- 1) 1 1 = Inr (11, 1) \<and> ptrbf_complexity [1] [1, 1, 1] = Inr (32, 8)"
  by code_simp

text \<open>
  C8, amended. The sign of a width is never checked, and the only error is the
  \<^verbatim>\<open>IndexError\<close> of a subscript out of range: \<^verbatim>\<open>crbf_complexity\<close> and
  \<^verbatim>\<open>fcrbf_complexity\<close> return a cost pair for all integers, negative ones included;
  \<^verbatim>\<open>cvfnn_complexity\<close>, \<^verbatim>\<open>scfnn_complexity\<close> and \<^verbatim>\<open>mlmvn_complexity\<close> raise exactly
  when the sequence has fewer than two entries, whatever their signs; and
  \<^verbatim>\<open>ptrbf_complexity\<close> raises exactly when \<open>len(O) < len(I) + 1\<close>, so that it returns a
  cost pair when \<open>len(O) > len(I) + 1\<close>.
\<close>

theorem raises_only_index_error:
  "(\<exists>p. crbf_complexity inp neurons out = Inr p) \<and>
   (\<exists>p. fcrbf_complexity inp neurons out = Inr p) \<and>
   (cvfnn_complexity I = Inl IndexError \<longleftrightarrow> length I < 2) \<and>
   (scfnn_complexity I = Inl IndexError \<longleftrightarrow> length I < 2) \<and>
   (mlmvn_complexity I = Inl IndexError \<longleftrightarrow> length I < 2) \<and>
   (ptrbf_complexity N Os = Inl IndexError \<longleftrightarrow> length Os < length N + 1)"
proof -
  have fnn: "(cvfnn_complexity I = Inl IndexError \<longleftrightarrow> length I < 2) \<and>
   (scfnn_complexity I = Inl IndexError \<longleftrightarrow> length I < 2) \<and>
   (mlmvn_complexity I = Inl IndexError \<longleftrightarrow> length I < 2)"
  proof (cases "length I < 2")
    case True
    then show ?thesis by (simp add: fnn_raises)
  next
    case False
    then have "2 \<le> length I" by simp
    then show ?thesis by (simp add: cvfnn_closed scfnn_closed mlmvn_closed)
  qed
  have pt: "ptrbf_complexity N Os = Inl IndexError \<longleftrightarrow> length Os < length N + 1"
  proof (cases "length Os < length N + 1")
    case True
    then have "length Os < length (0 # N)" by simp
    then have "ptrbf_body (0 # N) Os = Inl IndexError" by (rule ptrbf_body_raises)
    with True show ?thesis by (simp add: ptrbf_complexity_def)
  next
    case False
    then have "length (0 # N) \<le> length Os" "Os \<noteq> []" by auto
    then have "\<exists>p. ptrbf_body (0 # N) Os = Inr p" using ptrbf_body_closed by blast
    with False show ?thesis by (auto simp: ptrbf_complexity_def)
  qed
  show ?thesis using fnn pt by (simp add: crbf_complexity_def fcrbf_complexity_def)
qed

section \<open>The caller's lists\<close>

text \<open>
  C10. \<^verbatim>\<open>ptrbf_complexity\<close> does not modify its arguments: for every store and every
  two references \<open>I\<close> and \<open>Os\<close> into it, every list object of the store, the caller's
  \<open>I\<close> and \<open>Os\<close> among them, is the same after the call; the 0 is prepended in a fresh
  list, and the call returns what the function computes from the contents of the two
  lists.
\<close>

theorem ptrbf_leaves_arguments:
  assumes "I < length s" and "Os < length s"
  shows "(\<forall>p<length s. snd (ptrbf_complexity_st s I Os) ! p = s ! p) \<and>
         fst (ptrbf_complexity_st s I Os) = ptrbf_complexity (s ! I) (s ! Os)"
  using assms
  by (simp add: ptrbf_complexity_st_def list_add_def alloc_def ptrbf_complexity_def nth_append)

theorem ptrbf_leaves_arguments_witness:
  "(0::nat) < length [[50, 50], [6, 50, 3 :: int]] \<and>
   (1::nat) < length [[50, 50], [6, 50, 3 :: int]] \<and>
   snd (ptrbf_complexity_st [[50, 50], [6, 50, 3]] 0 1) ! 0 = [50, 50] \<and>
   snd (ptrbf_complexity_st [[50, 50], [6, 50, 3]] 0 1) ! 1 = [6, 50, 3] \<and>
   fst (ptrbf_complexity_st [[50, 50], [6, 50, 3]] 0 1) = ptrbf_complexity [50, 50] [6, 50, 3]"
  using ptrbf_leaves_arguments [of 0 "[[50, 50], [6, 50, 3]]" 1] by simp

end
